theory Spec2Isabelle
  imports Main "HOL-Library.Word" "HOL-Library.Multiset"
begin

unbundle bit_operations_syntax

section \<open>Library functions the program calls\<close>

subsection \<open>crypto/sha256\<close>

text \<open>
  SHA-256 as in FIPS 180-4. A byte is a natural number below 256 and a 32-bit word a
  natural number below \<open>2 ^ 32\<close>; every addition is reduced modulo \<open>2 ^ 32\<close>.
\<close>

type_synonym byte = nat

definition rotr :: "nat \<Rightarrow> nat \<Rightarrow> nat" where
  "rotr n x = x div 2 ^ n + (x mod 2 ^ n) * 2 ^ (32 - n)"

definition add32 :: "nat \<Rightarrow> nat \<Rightarrow> nat" where
  "add32 a b = (a + b) mod 4294967296"

definition ch :: "nat \<Rightarrow> nat \<Rightarrow> nat \<Rightarrow> nat" where
  "ch x y z = (x AND y) XOR ((4294967295 - x) AND z)"

definition maj :: "nat \<Rightarrow> nat \<Rightarrow> nat \<Rightarrow> nat" where
  "maj x y z = (x AND y) XOR (x AND z) XOR (y AND z)"

definition bsig0 :: "nat \<Rightarrow> nat" where
  "bsig0 x = rotr 2 x XOR rotr 13 x XOR rotr 22 x"

definition bsig1 :: "nat \<Rightarrow> nat" where
  "bsig1 x = rotr 6 x XOR rotr 11 x XOR rotr 25 x"

definition ssig0 :: "nat \<Rightarrow> nat" where
  "ssig0 x = rotr 7 x XOR rotr 18 x XOR x div 2 ^ 3"

definition ssig1 :: "nat \<Rightarrow> nat" where
  "ssig1 x = rotr 17 x XOR rotr 19 x XOR x div 2 ^ 10"

definition K256 :: "nat list" where
  "K256 = [1116352408, 1899447441, 3049323471, 3921009573, 961987163, 1508970993, 2453635748,
    2870763221, 3624381080, 310598401, 607225278, 1426881987, 1925078388, 2162078206,
    2614888103, 3248222580, 3835390401, 4022224774, 264347078, 604807628, 770255983,
    1249150122, 1555081692, 1996064986, 2554220882, 2821834349, 2952996808, 3210313671,
    3336571891, 3584528711, 113926993, 338241895, 666307205, 773529912, 1294757372,
    1396182291, 1695183700, 1986661051, 2177026350, 2456956037, 2730485921, 2820302411,
    3259730800, 3345764771, 3516065817, 3600352804, 4094571909, 275423344, 430227734,
    506948616, 659060556, 883997877, 958139571, 1322822218, 1537002063, 1747873779,
    1955562222, 2024104815, 2227730452, 2361852424, 2428436474, 2756734187, 3204031479,
    3329325298]"

definition H256 :: "nat list" where
  "H256 = [1779033703, 3144134277, 1013904242, 2773480762, 1359893119, 2600822924, 528734635,
    1541459225]"

text \<open>The message schedule, newest word first; one more word for each remaining round.\<close>

fun extend :: "nat list \<Rightarrow> 'a list \<Rightarrow> nat list" where
  "extend ws [] = ws"
| "extend ws (_ # ks) =
     extend (add32 (add32 (ssig1 (ws ! 1)) (ws ! 6)) (add32 (ssig0 (ws ! 14)) (ws ! 15)) # ws) ks"

definition step256 :: "nat list \<Rightarrow> nat \<Rightarrow> nat \<Rightarrow> nat list" where
  "step256 s t1 t2 = add32 t1 t2 # take 3 s @ add32 (s ! 3) t1 # take 3 (drop 4 s)"

definition round256 :: "nat list \<Rightarrow> nat \<times> nat \<Rightarrow> nat list" where
  "round256 s kw =
     step256 s
       (add32 (add32 (add32 (s ! 7) (bsig1 (s ! 4))) (add32 (ch (s ! 4) (s ! 5) (s ! 6)) (fst kw)))
          (snd kw))
       (add32 (bsig0 (s ! 0)) (maj (s ! 0) (s ! 1) (s ! 2)))"

fun be32 :: "byte list \<Rightarrow> nat list" where
  "be32 (a # b # c # d # r) = (((a * 256 + b) * 256 + c) * 256 + d) # be32 r"
| "be32 _ = []"

definition compress :: "nat list \<Rightarrow> byte list \<Rightarrow> nat list" where
  "compress hs blk =
     map2 add32 hs (foldl round256 hs (zip K256 (rev (extend (rev (be32 blk)) (drop 16 K256)))))"

definition be4 :: "nat \<Rightarrow> byte list" where
  "be4 w = [w div 16777216 mod 256, w div 65536 mod 256, w div 256 mod 256, w mod 256]"

definition be8 :: "nat \<Rightarrow> byte list" where
  "be8 w = be4 (w div 4294967296 mod 4294967296) @ be4 (w mod 4294967296)"

definition pad :: "byte list \<Rightarrow> byte list" where
  "pad m = m @ [128] @ replicate ((119 - length m mod 64) mod 64) 0 @ be8 (8 * length m)"

function chunks :: "byte list \<Rightarrow> byte list list" where
  "chunks m = (if length m < 64 then [] else take 64 m # chunks (drop 64 m))"
  by pat_completeness auto
termination
  by (relation "measure length") auto

declare chunks.simps [simp del]

definition sha256 :: "byte list \<Rightarrow> byte list" where
  "sha256 m = concat (map be4 (foldl compress H256 (chunks (pad m))))"

subsection \<open>encoding/hex, fmt and strings\<close>

definition hexdigit :: "nat \<Rightarrow> char" where
  "hexdigit n = ''0123456789abcdef'' ! n"

definition EncodeToString :: "byte list \<Rightarrow> string" where
  "EncodeToString bs = concat (map (\<lambda>b. [hexdigit (b div 16), hexdigit (b mod 16)]) bs)"

text \<open>\<^verbatim>\<open>[]byte(s)\<close>: a Go string is its bytes.\<close>

definition bytes_of :: "string \<Rightarrow> byte list" where
  "bytes_of s = map of_char s"

text \<open>\<^verbatim>\<open>fmt.Sprintf("%x", i)\<close> for \<open>i \<ge> 0\<close>: lower-case digits, no leading zero.\<close>

function Sprintf_x :: "nat \<Rightarrow> string" where
  "Sprintf_x n = (if n < 16 then [hexdigit n] else Sprintf_x (n div 16) @ [hexdigit (n mod 16)])"
  by pat_completeness auto
termination
  by (relation "measure id") auto

declare Sprintf_x.simps [simp del]

definition Repeat :: "string \<Rightarrow> nat \<Rightarrow> string" where
  "Repeat s n = concat (replicate n s)"

definition HasPrefix :: "string \<Rightarrow> string \<Rightarrow> bool" where
  "HasPrefix s p = (length p \<le> length s \<and> take (length p) s = p)"

section \<open>Transactions (transactions/transaction.go)\<close>

text \<open>
  Go's \<^verbatim>\<open>int\<close> is 64 bits wide on the platforms the program runs on: an output value is a
  \<open>64 word\<close>, read as a signed number by \<open>sint\<close>, compared with \<open><s\<close> and \<open>\<le>s\<close>, and its
  sums wrap around. An output index never leaves the range of a slice index (or is the
  sentinel \<open>-1\<close>), so it is an \<open>int\<close>.
\<close>

type_synonym go_int = "64 word"

record TXInput =
  Txid :: string
  in_Vout :: int
  ScriptSig :: string

record TXOutput =
  Value :: go_int
  ScriptPubKey :: string

record Transaction =
  ID :: string
  Vin :: "TXInput list"
  Vout :: "TXOutput list"

definition subsidy :: go_int where
  "subsidy = 10"

definition IsCoinbase :: "Transaction \<Rightarrow> bool" where
  "IsCoinbase tx =
     (length (Vin tx) = 1 \<and> length (Txid (Vin tx ! 0)) = 0 \<and> in_Vout (Vin tx ! 0) = - 1)"

text \<open>
  \<^verbatim>\<open>SetID\<close> hashes the gob encoding of the transaction. The encoder of encoding/gob is
  the parameter \<open>enc\<close> of every function that reaches \<^verbatim>\<open>SetID\<close>.
\<close>

definition SetID :: "(Transaction \<Rightarrow> byte list) \<Rightarrow> Transaction \<Rightarrow> Transaction" where
  "SetID enc tx = tx\<lparr>ID := EncodeToString (sha256 (enc tx))\<rparr>"

definition CanUnlockOutputWith :: "TXInput \<Rightarrow> string \<Rightarrow> bool" where
  "CanUnlockOutputWith inp unlockingData = (ScriptSig inp = unlockingData)"

definition CanBeUnlockedWith :: "TXOutput \<Rightarrow> string \<Rightarrow> bool" where
  "CanBeUnlockedWith out unlockingData = (ScriptPubKey out = unlockingData)"

definition NewCoinbaseTX :: "(Transaction \<Rightarrow> byte list) \<Rightarrow> string \<Rightarrow> string \<Rightarrow> Transaction" where
  "NewCoinbaseTX enc to data =
     (let data' = (if data = [] then ''Reward to '' @ [CHR 0x27] @ to @ [CHR 0x27] else data);
          txin = \<lparr>Txid = [], in_Vout = - 1, ScriptSig = data'\<rparr>;
          txout = \<lparr>Value = subsidy, ScriptPubKey = to\<rparr>
      in SetID enc \<lparr>ID = [], Vin = [txin], Vout = [txout]\<rparr>)"

section \<open>Blocks and the chain\<close>

definition difficulty :: nat where
  "difficulty = 1"

definition genesisCoinbaseData :: string where
  "genesisCoinbaseData = ''The Times 03/Jan/2009 Chancellor on brink of second bailout for banks''"

record Block =
  Timestamp :: string
  Transactions :: "Transaction list"
  Hash :: string
  PrevHash :: string
  Nonce :: string

text \<open>The chain is the slice \<^verbatim>\<open>bc.blocks\<close>; the mutex guards the append only.\<close>

type_synonym Blockchain = "Block list"

record SendMessage =
  From :: string
  To :: string
  SendValue :: go_int

definition emptyBlock :: Block where
  "emptyBlock = \<lparr>Timestamp = [], Transactions = [], Hash = [], PrevHash = [], Nonce = []\<rparr>"

definition HashTransactions :: "Block \<Rightarrow> byte list" where
  "HashTransactions b = sha256 (concat (map (\<lambda>tx. bytes_of (ID tx)) (Transactions b)))"

definition calculateHash :: "Block \<Rightarrow> string" where
  "calculateHash block =
     EncodeToString (sha256 (bytes_of (Timestamp block @ PrevHash block @ Nonce block)
                             @ HashTransactions block))"

definition isBlockValid :: "Block \<Rightarrow> Block \<Rightarrow> bool" where
  "isBlockValid newBlock oldBlock =
     (if Hash oldBlock \<noteq> PrevHash newBlock then False
      else if calculateHash newBlock \<noteq> Hash newBlock then False
      else True)"

definition isHashValid :: "string \<Rightarrow> nat \<Rightarrow> bool" where
  "isHashValid hash d = HasPrefix hash (Repeat ''0'' d)"

text \<open>\<^verbatim>\<open>time.Now().String()\<close> is the parameter \<open>now\<close>.\<close>

definition NewGenesisBlock :: "(Transaction \<Rightarrow> byte list) \<Rightarrow> string \<Rightarrow> Block" where
  "NewGenesisBlock enc now =
     (let genesisBlock = emptyBlock
      in \<lparr>Timestamp = now, Transactions = [NewCoinbaseTX enc ''Ivan'' genesisCoinbaseData],
          Hash = calculateHash genesisBlock, PrevHash = [], Nonce = []\<rparr>)"

definition AddBlock :: "Blockchain \<Rightarrow> Block \<Rightarrow> Blockchain" where
  "AddBlock bc newBlock = bc @ [newBlock]"

definition NewBlockchain :: "(Transaction \<Rightarrow> byte list) \<Rightarrow> string \<Rightarrow> Blockchain" where
  "NewBlockchain enc now = [NewGenesisBlock enc now]"

section \<open>Unspent outputs\<close>

text \<open>
  \<^verbatim>\<open>spentTXOs\<close> is a Go map that is only read by key and appended to: a function from the
  key to the slice stored there, the nil slice for a key never written.
\<close>

fun markSpent :: "string \<Rightarrow> (string \<Rightarrow> int list) \<Rightarrow> TXInput list \<Rightarrow> (string \<Rightarrow> int list)" where
  "markSpent address spentTXOs [] = spentTXOs"
| "markSpent address spentTXOs (inp # ins) =
     markSpent address
       (if CanUnlockOutputWith inp address
        then spentTXOs(Txid inp := spentTXOs (Txid inp) @ [in_Vout inp])
        else spentTXOs)
       ins"

text \<open>The loop labelled \<^verbatim>\<open>Outputs\<close>: \<open>outIdx\<close> is the index of the head of the remaining outputs.\<close>

fun scanOutputs ::
  "string \<Rightarrow> int list \<Rightarrow> Transaction \<Rightarrow> nat \<Rightarrow> TXOutput list \<Rightarrow> Transaction list \<Rightarrow> Transaction list"
where
  "scanOutputs address spent tx outIdx [] unspentTXs = unspentTXs"
| "scanOutputs address spent tx outIdx (out # outs) unspentTXs =
     (if int outIdx \<in> set spent then scanOutputs address spent tx (Suc outIdx) outs unspentTXs
      else if CanBeUnlockedWith out address
        then scanOutputs address spent tx (Suc outIdx) outs (unspentTXs @ [tx])
        else scanOutputs address spent tx (Suc outIdx) outs unspentTXs)"

definition scanTx ::
  "string \<Rightarrow> (string \<Rightarrow> int list) \<times> Transaction list \<Rightarrow> Transaction
     \<Rightarrow> (string \<Rightarrow> int list) \<times> Transaction list"
where
  "scanTx address st tx =
     (let spentTXOs = (if \<not> IsCoinbase tx then markSpent address (fst st) (Vin tx) else fst st)
      in (spentTXOs, scanOutputs address (spentTXOs (ID tx)) tx 0 (Vout tx) (snd st)))"

text \<open>The blocks from the tail to the genesis block; a block without transactions ends the scan.\<close>

fun scanBlocks ::
  "string \<Rightarrow> (string \<Rightarrow> int list) \<times> Transaction list \<Rightarrow> Block list \<Rightarrow> Transaction list"
where
  "scanBlocks address st [] = snd st"
| "scanBlocks address st (b # bs) =
     (if length (Transactions b) = 0 then snd st
      else scanBlocks address (foldl (scanTx address) st (Transactions b)) bs)"

definition FindUnspentTransactions :: "Blockchain \<Rightarrow> string \<Rightarrow> Transaction list" where
  "FindUnspentTransactions bc address = scanBlocks address (\<lambda>_. [], []) (rev bc)"

definition FindUTXO :: "Blockchain \<Rightarrow> string \<Rightarrow> TXOutput list" where
  "FindUTXO bc address =
     concat (map (\<lambda>tx. filter (\<lambda>out. CanBeUnlockedWith out address) (Vout tx))
                 (FindUnspentTransactions bc address))"

text \<open>The sum that \<^verbatim>\<open>handleGetBalance\<close> answers with.\<close>

definition GetBalance :: "Blockchain \<Rightarrow> string \<Rightarrow> go_int" where
  "GetBalance bc address = foldl (\<lambda>balance out. balance + Value out) 0 (FindUTXO bc address)"

subsection \<open>Spendable outputs\<close>

text \<open>
  \<^verbatim>\<open>unspentOutputs\<close> is a Go map that is ranged over by its caller: an association list with
  one entry for each key, in the order the keys were first written.
\<close>

fun appendAt :: "(string \<times> int list) list \<Rightarrow> string \<Rightarrow> int \<Rightarrow> (string \<times> int list) list" where
  "appendAt [] k v = [(k, [v])]"
| "appendAt ((k', vs) # m) k v = (if k' = k then (k', vs @ [v]) # m else (k', vs) # appendAt m k v)"

text \<open>
  The inner loop of \<^verbatim>\<open>FindSpendableOutputs\<close>; the flag of the result tells that the
  function has returned from inside the loop.
\<close>

fun spendOutputs ::
  "string \<Rightarrow> go_int \<Rightarrow> string \<Rightarrow> nat \<Rightarrow> TXOutput list \<Rightarrow> go_int \<times> (string \<times> int list) list
     \<Rightarrow> (go_int \<times> (string \<times> int list) list) \<times> bool"
where
  "spendOutputs address amount txID idx [] st = (st, False)"
| "spendOutputs address amount txID idx (out # outs) st =
     (if CanBeUnlockedWith out address \<and> fst st <s amount
      then (let accumulated = fst st + Value out;
                unspentOutputs = appendAt (snd st) txID (int idx)
            in if amount \<le>s accumulated then ((accumulated, unspentOutputs), True)
               else spendOutputs address amount txID (Suc idx) outs (accumulated, unspentOutputs))
      else spendOutputs address amount txID (Suc idx) outs st)"

fun spendTXs ::
  "string \<Rightarrow> go_int \<Rightarrow> Transaction list \<Rightarrow> go_int \<times> (string \<times> int list) list
     \<Rightarrow> go_int \<times> (string \<times> int list) list"
where
  "spendTXs address amount [] st = st"
| "spendTXs address amount (tx # txs) st =
     (case spendOutputs address amount (ID tx) 0 (Vout tx) st of
        (st', True) \<Rightarrow> st'
      | (st', False) \<Rightarrow> spendTXs address amount txs st')"

definition FindSpendableOutputs ::
  "Blockchain \<Rightarrow> string \<Rightarrow> go_int \<Rightarrow> go_int \<times> (string \<times> int list) list"
where
  "FindSpendableOutputs bc address amount =
     spendTXs address amount (FindUnspentTransactions bc address) (0, [])"

subsection \<open>Building a transfer\<close>

datatype error = NotEnoughFunds

text \<open>
  Go visits the entries of a map in an order it does not specify. The parameter \<open>rank\<close>
  is the order this call ranges over \<^verbatim>\<open>validOutputs\<close> in: the keys are visited by
  increasing rank, and every order of the keys is the order of some rank.
\<close>

definition NewUTXOTransaction ::
  "(Transaction \<Rightarrow> byte list) \<Rightarrow> (string \<Rightarrow> nat)
     \<Rightarrow> string \<Rightarrow> string \<Rightarrow> go_int \<Rightarrow> Blockchain \<Rightarrow> error + Transaction"
where
  "NewUTXOTransaction enc rank from to amount bc =
     (let (acc, validOutputs) = FindSpendableOutputs bc from amount
      in if acc <s amount then Inl NotEnoughFunds
         else
           (let inputs = concat (map (\<lambda>(txid, outs).
                            map (\<lambda>out. \<lparr>Txid = txid, in_Vout = out, ScriptSig = from\<rparr>) outs)
                          (sort_key (\<lambda>kv. rank (fst kv)) validOutputs));
                outputs = [\<lparr>Value = amount, ScriptPubKey = to\<rparr>]
                  @ (if amount <s acc then [\<lparr>Value = acc - amount, ScriptPubKey = from\<rparr>] else [])
            in Inr (SetID enc \<lparr>ID = [], Vin = inputs, Vout = outputs\<rparr>)))"

section \<open>Proof of work and the write path\<close>

text \<open>
  The loop of \<^verbatim>\<open>generateBlock\<close> has no bound: it is a partial function, and \<open>None\<close> stands
  for a search that never ends. The counter is a natural number: Go's \<^verbatim>\<open>int\<close> would wrap
  only after \<open>2 ^ 63\<close> failed attempts.
\<close>

partial_function (option) powLoop :: "Block \<Rightarrow> nat \<Rightarrow> Block option" where
  "powLoop newBlock i =
     (let newBlock' = newBlock\<lparr>Nonce := Sprintf_x i\<rparr>;
          newHash = calculateHash newBlock'
      in if \<not> isHashValid newHash difficulty then powLoop newBlock' (Suc i)
         else Some (newBlock'\<lparr>Hash := newHash\<rparr>))"

definition generateBlock ::
  "(Transaction \<Rightarrow> byte list) \<Rightarrow> (string \<Rightarrow> nat)
     \<Rightarrow> string \<Rightarrow> Blockchain \<Rightarrow> Block \<Rightarrow> SendMessage \<Rightarrow> (error + Block) option"
where
  "generateBlock enc rank now bc oldBlock m =
     (case NewUTXOTransaction enc rank (From m) (To m) (SendValue m) bc of
        Inl err \<Rightarrow> Some (Inl err)
      | Inr newTranaction \<Rightarrow>
          map_option Inr
            (powLoop \<lparr>Timestamp = now, Transactions = [newTranaction], Hash = [],
                      PrevHash = Hash oldBlock, Nonce = []\<rparr> 0))"

datatype response = IndexOutOfRange | InternalServerError error | Created Block

text \<open>
  \<^verbatim>\<open>handleWriteBlock\<close> after the request body has been decoded into \<open>m\<close>: the new chain and
  the answer, or \<open>None\<close> when the search for a nonce never ends.
\<close>

definition handleWriteBlock ::
  "(Transaction \<Rightarrow> byte list) \<Rightarrow> (string \<Rightarrow> nat)
     \<Rightarrow> string \<Rightarrow> SendMessage \<Rightarrow> Blockchain \<Rightarrow> (Blockchain \<times> response) option"
where
  "handleWriteBlock enc rank now m bc =
     (if bc = [] then Some (bc, IndexOutOfRange)
      else case generateBlock enc rank now bc (last bc) m of
        None \<Rightarrow> None
      | Some (Inl err) \<Rightarrow> Some (bc, InternalServerError err)
      | Some (Inr newBlock) \<Rightarrow>
          Some (if isBlockValid newBlock (last bc) then AddBlock bc newBlock else bc,
                Created newBlock))"

text \<open>
  The chains the program can hold: the chain of \<^verbatim>\<open>NewBlockchain\<close>, and every chain a
  request to \<^verbatim>\<open>handleWriteBlock\<close> leaves behind.
\<close>

inductive reachable :: "(Transaction \<Rightarrow> byte list) \<Rightarrow> Blockchain \<Rightarrow> bool"
  for enc :: "Transaction \<Rightarrow> byte list"
where
  reachable_start: "reachable enc (NewBlockchain enc now)"
| reachable_request: "reachable enc bc \<Longrightarrow> handleWriteBlock enc rank now m bc = Some (bc', r)
     \<Longrightarrow> reachable enc bc'"

section \<open>Notions the properties are stated with\<close>

text \<open>The nonce \<open>i\<close> seals the block: with it the fingerprint passes the leading-zero test.\<close>

definition nonceValid :: "Block \<Rightarrow> nat \<Rightarrow> bool" where
  "nonceValid blk i = isHashValid (calculateHash (blk\<lparr>Nonce := Sprintf_x i\<rparr>)) difficulty"

text \<open>The (transaction id, output index) pairs that a selection of spendable outputs holds.\<close>

definition selectedPairs :: "(string \<times> int list) list \<Rightarrow> (string \<times> int) list" where
  "selectedPairs m = concat (map (\<lambda>kv. map (Pair (fst kv)) (snd kv)) m)"

section \<open>Proof of work\<close>

lemma calculateHash_Hash_update [simp]: "calculateHash (b\<lparr>Hash := h\<rparr>) = calculateHash b"
  by (simp add: calculateHash_def HashTransactions_def)

lemma nonceValid_Nonce_update [simp]: "nonceValid (blk\<lparr>Nonce := n\<rparr>) i = nonceValid blk i"
  by (simp add: nonceValid_def)

lemma nonceValid_Hash_update [simp]: "nonceValid (blk\<lparr>Hash := h\<rparr>) i = nonceValid blk i"
  by (simp add: nonceValid_def calculateHash_def HashTransactions_def)

lemma powLoop_sound:
  assumes "powLoop blk i = Some b"
  shows "\<exists>k\<ge>i. nonceValid blk k \<and> (\<forall>j. i \<le> j \<and> j < k \<longrightarrow> \<not> nonceValid blk j)
           \<and> b = blk\<lparr>Nonce := Sprintf_x k, Hash := calculateHash (blk\<lparr>Nonce := Sprintf_x k\<rparr>)\<rparr>"
proof -
  let ?P = "\<lambda>blk i b. \<exists>k\<ge>i. nonceValid blk k \<and> (\<forall>j. i \<le> j \<and> j < k \<longrightarrow> \<not> nonceValid blk j)
           \<and> b = blk\<lparr>Nonce := Sprintf_x k, Hash := calculateHash (blk\<lparr>Nonce := Sprintf_x k\<rparr>)\<rparr>"
  show ?thesis
  proof (rule powLoop.raw_induct[where P = ?P, OF _ assms])
    fix loop :: "Block \<Rightarrow> nat \<Rightarrow> Block option" and blk i b
    assume IH: "\<And>blk i b. loop blk i = Some b \<Longrightarrow> ?P blk i b"
      and eq: "(let newBlock' = blk\<lparr>Nonce := Sprintf_x i\<rparr>; newHash = calculateHash newBlock'
                in if \<not> isHashValid newHash difficulty then loop newBlock' (Suc i)
                   else Some (newBlock'\<lparr>Hash := newHash\<rparr>)) = Some b"
    show "?P blk i b"
    proof (cases "nonceValid blk i")
      case True
      with eq have "b = blk\<lparr>Nonce := Sprintf_x i, Hash := calculateHash (blk\<lparr>Nonce := Sprintf_x i\<rparr>)\<rparr>"
        by (simp add: nonceValid_def Let_def)
      with True show ?thesis by (intro exI[of _ i]) auto
    next
      case False
      with eq have "loop (blk\<lparr>Nonce := Sprintf_x i\<rparr>) (Suc i) = Some b"
        by (simp add: nonceValid_def Let_def)
      from IH[OF this] obtain k where k: "Suc i \<le> k" "nonceValid blk k"
        "\<forall>j. Suc i \<le> j \<and> j < k \<longrightarrow> \<not> nonceValid blk j"
        "b = blk\<lparr>Nonce := Sprintf_x k, Hash := calculateHash (blk\<lparr>Nonce := Sprintf_x k\<rparr>)\<rparr>"
        by auto
      have "\<forall>j. i \<le> j \<and> j < k \<longrightarrow> \<not> nonceValid blk j"
      proof (intro allI impI)
        fix j assume "i \<le> j \<and> j < k"
        then show "\<not> nonceValid blk j"
          using False k(3) by (cases "j = i") auto
      qed
      with k show ?thesis by (intro exI[of _ k]) auto
    qed
  qed
qed

lemma powLoop_complete:
  "nonceValid blk k \<Longrightarrow> i \<le> k \<Longrightarrow> \<exists>b. powLoop blk i = Some b"
proof (induction "k - i" arbitrary: i blk)
  case 0
  then have "i = k" by simp
  with 0 show ?case
    by (subst powLoop.simps) (simp add: nonceValid_def Let_def)
next
  case (Suc d)
  show ?case
  proof (cases "nonceValid blk i")
    case True
    then show ?thesis by (subst powLoop.simps) (simp add: nonceValid_def Let_def)
  next
    case False
    from Suc have "d = k - Suc i" "Suc i \<le> k" by auto
    moreover have "nonceValid (blk\<lparr>Nonce := Sprintf_x i\<rparr>) k" using Suc.prems by simp
    ultimately obtain b where "powLoop (blk\<lparr>Nonce := Sprintf_x i\<rparr>) (Suc i) = Some b"
      using Suc.hyps(1) by blast
    with False show ?thesis by (subst powLoop.simps) (simp add: nonceValid_def Let_def)
  qed
qed

text \<open>
  C3. Whenever \<^verbatim>\<open>generateBlock\<close> returns a block, its hash is the fingerprint of its stored
  fields, the hash starts with \<open>difficulty\<close> zero characters, and its nonce is the
  hexadecimal form of the least natural number whose fingerprint passes that test.
\<close>

theorem generateBlock_sealed:
  assumes "generateBlock enc rank now bc oldBlock m = Some (Inr b)"
  shows "Hash b = calculateHash b \<and> isHashValid (Hash b) difficulty
         \<and> Nonce b = Sprintf_x (LEAST i. isHashValid (calculateHash (b\<lparr>Nonce := Sprintf_x i\<rparr>)) difficulty)"
proof -
  from assms obtain tx where
    loop: "powLoop \<lparr>Timestamp = now, Transactions = [tx], Hash = [], PrevHash = Hash oldBlock, Nonce = []\<rparr> 0 = Some b"
    by (auto simp: generateBlock_def split: sum.splits)
  let ?blk = "\<lparr>Timestamp = now, Transactions = [tx], Hash = [], PrevHash = Hash oldBlock, Nonce = []\<rparr>"
  from powLoop_sound[OF loop] obtain k where k: "nonceValid ?blk k"
    "\<forall>j. j < k \<longrightarrow> \<not> nonceValid ?blk j"
    "b = ?blk\<lparr>Nonce := Sprintf_x k, Hash := calculateHash (?blk\<lparr>Nonce := Sprintf_x k\<rparr>)\<rparr>"
    by auto
  have nv: "nonceValid b i = nonceValid ?blk i" for i
    by (simp add: k(3) nonceValid_def calculateHash_def HashTransactions_def)
  have "(LEAST i. nonceValid b i) = k"
    using k(1,2) by (intro Least_equality) (auto simp: nv not_less[symmetric])
  then have "Nonce b = Sprintf_x (LEAST i. nonceValid b i)"
    using k(3) by simp
  moreover have "Hash b = calculateHash b"
    by (simp add: k(3) calculateHash_def HashTransactions_def)
  moreover have "isHashValid (Hash b) difficulty" using k(1,3) by (simp add: nonceValid_def)
  ultimately show ?thesis by (simp add: nonceValid_def)
qed

section \<open>Validity and the chain invariant\<close>

lemma handleWriteBlock_cases:
  assumes "handleWriteBlock enc rank now m bc = Some (bc', r)"
  shows "bc' = bc \<or> (bc \<noteq> [] \<and> (\<exists>nb. isBlockValid nb (last bc) \<and> bc' = bc @ [nb]))"
proof (cases "bc = []")
  case True
  with assms show ?thesis by (simp add: handleWriteBlock_def)
next
  case False
  show ?thesis
  proof (cases "generateBlock enc rank now bc (last bc) m")
    case None
    with assms False show ?thesis by (simp add: handleWriteBlock_def)
  next
    case (Some res)
    show ?thesis
    proof (cases res)
      case (Inl err)
      with assms False Some show ?thesis by (simp add: handleWriteBlock_def)
    next
      case (Inr nb)
      with assms False Some have "bc' = (if isBlockValid nb (last bc) then bc @ [nb] else bc)"
        by (auto simp: handleWriteBlock_def AddBlock_def)
      with False show ?thesis by (cases "isBlockValid nb (last bc)") auto
    qed
  qed
qed

text \<open>
  C1. In every chain the write path can reach, each block after the genesis block names the
  hash of its predecessor in \<open>PrevHash\<close>, and its stored hash is the fingerprint recomputed
  from its stored fields.
\<close>

theorem chain_linked:
  assumes "reachable enc bc" and "0 < i" and "i < length bc"
  shows "PrevHash (bc ! i) = Hash (bc ! (i - 1)) \<and> calculateHash (bc ! i) = Hash (bc ! i)"
  using assms
proof (induction arbitrary: i rule: reachable.induct)
  case (reachable_start now)
  then show ?case by (simp add: NewBlockchain_def)
next
  case (reachable_request bc rank now m bc' r)
  show ?case
  proof (cases "bc' = bc")
    case True
    with reachable_request show ?thesis by simp
  next
    case False
    with handleWriteBlock_cases[OF reachable_request(2)]
    obtain nb where nb: "bc \<noteq> []" "isBlockValid nb (last bc)" "bc' = bc @ [nb]"
      by blast
    show ?thesis
    proof (cases "i < length bc")
      case True
      moreover from True have "i - 1 < length bc" by simp
      ultimately show ?thesis
        using reachable_request(3)[of i] reachable_request(4) nb(3)
        by (simp add: nth_append)
    next
      case False
      with reachable_request(5) nb have i: "i = length bc" by simp
      with nb have "bc' ! i = nb" "bc' ! (i - 1) = last bc"
        by (simp_all add: nth_append last_conv_nth)
      with nb(2) show ?thesis
        by (simp add: isBlockValid_def split: if_splits)
    qed
  qed
qed

text \<open>
  C2. \<^verbatim>\<open>isBlockValid\<close> holds exactly when the predecessor's hash is the candidate's
  \<open>PrevHash\<close> and the candidate's fingerprint is its stored hash; a block whose nonce is
  altered so that the fingerprint no longer is the stored hash is not valid.
\<close>

theorem isBlockValid_iff:
  "(isBlockValid candidate predecessor \<longleftrightarrow>
      Hash predecessor = PrevHash candidate \<and> calculateHash candidate = Hash candidate)
   \<and> (calculateHash (b\<lparr>Nonce := n\<rparr>) \<noteq> Hash b \<longrightarrow> \<not> isBlockValid (b\<lparr>Nonce := n\<rparr>) predecessor)"
  by (simp add: isBlockValid_def)

section \<open>Transfers\<close>

text \<open>
  C5. \<^verbatim>\<open>NewUTXOTransaction\<close> fails exactly when the value accumulated by
  \<^verbatim>\<open>FindSpendableOutputs\<close> is below the amount, and then \<^verbatim>\<open>handleWriteBlock\<close> leaves the
  chain as it was.
\<close>

theorem insufficient_funds:
  "((\<exists>e. NewUTXOTransaction enc rank sender recipient amount bc = Inl e)
      \<longleftrightarrow> fst (FindSpendableOutputs bc sender amount) <s amount)
   \<and> (NewUTXOTransaction enc rank (From m) (To m) (SendValue m) bc = Inl e
        \<longrightarrow> (\<exists>r. handleWriteBlock enc rank now m bc = Some (bc, r)))"
  by (auto simp: NewUTXOTransaction_def handleWriteBlock_def generateBlock_def Let_def
      split: prod.splits)

text \<open>
  C7, as amended. \<^verbatim>\<open>AddBlock\<close> appends the block it is given without any check and
  reports nothing; the check against the last block is made by its caller
  \<^verbatim>\<open>handleWriteBlock\<close>, which appends the block only if \<^verbatim>\<open>isBlockValid\<close> passes, leaves
  the chain unchanged otherwise, and answers with the block in both cases.
\<close>

theorem AddBlock_unguarded:
  "AddBlock bc newBlock = bc @ [newBlock]
   \<and> (handleWriteBlock enc rank now m bc = Some (bc', Created nb)
        \<longrightarrow> bc' = (if isBlockValid nb (last bc) then AddBlock bc nb else bc))"
  by (auto simp: handleWriteBlock_def AddBlock_def split: if_splits option.splits sum.splits)

lemma mset_concat_map_sort_key:
  "mset (concat (map f (sort_key k xs))) = mset (concat (map f xs))"
proof -
  have "mset (concat (map f ys)) = (\<Sum>x\<in>#mset ys. mset (f x))" for ys
    by (induction ys) simp_all
  then show ?thesis by simp
qed

text \<open>
  C8. A transaction returned by \<^verbatim>\<open>NewUTXOTransaction\<close> has one input for each selected
  (transaction id, output index) pair, each unlocked by the sender; its outputs are the
  amount for the recipient and, exactly when more was accumulated, the change for the
  sender; its identifier is the fingerprint of the transaction, set before it is returned.
\<close>

theorem NewUTXOTransaction_shape:
  assumes "NewUTXOTransaction enc rank sender recipient amount bc = Inr tx"
    and "FindSpendableOutputs bc sender amount = (acc, validOutputs)"
  shows "amount \<le>s acc
    \<and> mset (map (\<lambda>inp. (Txid inp, in_Vout inp)) (Vin tx)) = mset (selectedPairs validOutputs)
    \<and> (\<forall>inp \<in> set (Vin tx). ScriptSig inp = sender)
    \<and> Vout tx = \<lparr>Value = amount, ScriptPubKey = recipient\<rparr>
         # (if amount <s acc then [\<lparr>Value = acc - amount, ScriptPubKey = sender\<rparr>] else [])
    \<and> ID tx = EncodeToString (sha256 (enc (tx\<lparr>ID := []\<rparr>)))"
proof -
  let ?inputs = "\<lambda>vo. concat (map (\<lambda>(txid, outs).
                   map (\<lambda>out. \<lparr>Txid = txid, in_Vout = out, ScriptSig = sender\<rparr>) outs) vo)"
  let ?outputs = "\<lparr>Value = amount, ScriptPubKey = recipient\<rparr>
         # (if amount <s acc then [\<lparr>Value = acc - amount, ScriptPubKey = sender\<rparr>] else [])"
  from assms have ok: "\<not> acc <s amount"
    and tx: "tx = SetID enc \<lparr>ID = [], Vin = ?inputs (sort_key (\<lambda>kv. rank (fst kv)) validOutputs),
                              Vout = ?outputs\<rparr>"
    by (auto simp: NewUTXOTransaction_def Let_def split: if_splits)
  have 1: "amount \<le>s acc" using ok by (simp add: word_sle_eq word_sless_alt)
  have "map (\<lambda>inp. (Txid inp, in_Vout inp)) (?inputs vo) = selectedPairs vo" for vo
    by (induction vo) (auto simp: selectedPairs_def)
  moreover have "mset (selectedPairs (sort_key k vo)) = mset (selectedPairs vo)" for k vo
    unfolding selectedPairs_def by (rule mset_concat_map_sort_key)
  ultimately have 2: "mset (map (\<lambda>inp. (Txid inp, in_Vout inp)) (Vin tx)) = mset (selectedPairs validOutputs)"
    by (simp add: tx SetID_def)
  have 3: "\<forall>inp \<in> set (Vin tx). ScriptSig inp = sender"
    by (auto simp: tx SetID_def)
  have 4: "Vout tx = ?outputs" by (simp add: tx SetID_def)
  have 5: "ID tx = EncodeToString (sha256 (enc (tx\<lparr>ID := []\<rparr>)))"
    by (simp add: tx SetID_def)
  from 1 2 3 4 5 show ?thesis by blast
qed

lemma spendOutputs_zero: "spendOutputs address 0 txID idx outs (0, []) = ((0, []), False)"
  by (induction outs arbitrary: idx) simp_all

lemma spendTXs_zero: "spendTXs address 0 txs (0, []) = (0, [])"
  by (induction txs) (simp_all add: spendOutputs_zero)

text \<open>
  C10. For the amount 0, on any chain and for any sender, \<^verbatim>\<open>FindSpendableOutputs\<close> selects
  nothing and accumulates 0, and \<^verbatim>\<open>NewUTXOTransaction\<close> succeeds with a transaction that
  is not a coinbase, has no input and has the single output of value 0 for the recipient.
\<close>

theorem zero_amount_transfer:
  "FindSpendableOutputs bc sender 0 = (0, [])
   \<and> NewUTXOTransaction enc rank sender recipient 0 bc
       = Inr (SetID enc \<lparr>ID = [], Vin = [], Vout = [\<lparr>Value = 0, ScriptPubKey = recipient\<rparr>]\<rparr>)
   \<and> \<not> IsCoinbase (SetID enc \<lparr>ID = [], Vin = [], Vout = [\<lparr>Value = 0, ScriptPubKey = recipient\<rparr>]\<rparr>)
   \<and> Vin (SetID enc \<lparr>ID = [], Vin = [], Vout = [\<lparr>Value = 0, ScriptPubKey = recipient\<rparr>]\<rparr>) = []
   \<and> Vout (SetID enc \<lparr>ID = [], Vin = [], Vout = [\<lparr>Value = 0, ScriptPubKey = recipient\<rparr>]\<rparr>)
       = [\<lparr>Value = 0, ScriptPubKey = recipient\<rparr>]"
  by (simp add: FindSpendableOutputs_def spendTXs_zero NewUTXOTransaction_def SetID_def
      IsCoinbase_def Let_def)

lemma change_nonneg:
  fixes acc amount :: go_int
  assumes "0 \<le>s amount" "amount <s acc"
  shows "0 \<le>s acc - amount"
proof -
  have a: "0 \<le> sint amount" "sint amount < sint acc"
    using assms by (simp_all add: word_sle_eq word_sless_alt)
  have b: "sint acc < 2 ^ 63" using sint_lt[of acc] by simp
  have "sint (acc - amount) = signed_take_bit 63 (sint acc - sint amount)"
    by (simp add: sint_word_ariths)
  also have "\<dots> = sint acc - sint amount"
    using a b by (intro signed_take_bit_int_eq_self) auto
  finally show ?thesis using a by (simp add: word_sle_eq)
qed

text \<open>
  C9, as amended. The output of a coinbase transaction has the value 10, and every output
  of a transaction that \<^verbatim>\<open>NewUTXOTransaction\<close> returns for an amount that is not negative
  has a value that is not negative.
\<close>

theorem outputs_nonneg:
  "(\<forall>out \<in> set (Vout (NewCoinbaseTX enc recipient memo)). Value out = 10)
   \<and> (0 \<le>s amount \<longrightarrow> NewUTXOTransaction enc rank sender recipient amount bc = Inr tx
        \<longrightarrow> (\<forall>out \<in> set (Vout tx). 0 \<le>s Value out))"
proof -
  have "\<forall>out \<in> set (Vout (NewCoinbaseTX enc recipient memo)). Value out = 10"
    by (simp add: NewCoinbaseTX_def SetID_def subsidy_def Let_def)
  moreover have "\<forall>out \<in> set (Vout tx). 0 \<le>s Value out"
    if "0 \<le>s amount" "NewUTXOTransaction enc rank sender recipient amount bc = Inr tx"
    using that change_nonneg[of amount]
    by (auto simp: NewUTXOTransaction_def Let_def SetID_def split: if_splits prod.splits)
  ultimately show ?thesis by blast
qed

end
